theory Spec2Isabelle
  imports Main
begin

section \<open>Recipe Finder: session configuration and event translation\<close>

text \<open>
  A shallow embedding of \<^verbatim>\<open>src/workflow/orchestrator.ts\<close>. The process environment is
  an explicit map, the engine's \<^verbatim>\<open>query\<close> is a parameter, its asynchronous iterator is a
  finite stream that ends by closing or by raising, and the generator \<^verbatim>\<open>streamAgent\<close>,
  consumed to its end, is the list of the events it yields together with the way it
  completes.
\<close>

subsection \<open>Launch arguments of the browser-automation subprocess\<close>

text \<open>\<^verbatim>\<open>process.env\<close>: a variable is a string or is absent.\<close>

type_synonym environment = "string \<rightharpoonup> string"

definition baseArgs :: "string list" where
  "baseArgs = [''-y'', ''chrome-devtools-mcp@latest'', ''--headless'', ''--isolated'',
     ''--no-category-emulation'', ''--no-category-performance'', ''--no-category-network'']"

definition isContainer :: "environment \<Rightarrow> bool" where
  "isContainer env = (env ''CHROME_PATH'' = Some ''/usr/bin/chromium'')"

definition buildChromeDevToolsArgs :: "environment \<Rightarrow> string list" where
  "buildChromeDevToolsArgs env =
     (if isContainer env
      then baseArgs @ [''--executable-path=/usr/bin/chromium'', ''--chrome-arg=--no-sandbox'',
             ''--chrome-arg=--disable-setuid-sandbox'', ''--chrome-arg=--disable-dev-shm-usage'',
             ''--chrome-arg=--disable-gpu'']
      else baseArgs)"

record McpServerConfig =
  server_type :: string
  command :: string
  args :: "string list"

text \<open>
  The constant is computed once, when the module is loaded, so it reads the environment
  of that moment (\<open>load_env\<close>), not the one of a later call.
\<close>

definition CHROME_DEVTOOLS_MCP_CONFIG :: "environment \<Rightarrow> McpServerConfig" where
  "CHROME_DEVTOOLS_MCP_CONFIG load_env =
     \<lparr>server_type = ''stdio'', command = ''npx'', args = buildChromeDevToolsArgs load_env\<rparr>"

subsection \<open>The tool allow-list\<close>

definition ALLOWED_TOOLS :: "string list" where
  "ALLOWED_TOOLS = [
     ''mcp__chrome-devtools__click'',
     ''mcp__chrome-devtools__fill'',
     ''mcp__chrome-devtools__fill_form'',
     ''mcp__chrome-devtools__hover'',
     ''mcp__chrome-devtools__press_key'',
     ''mcp__chrome-devtools__navigate_page'',
     ''mcp__chrome-devtools__new_page'',
     ''mcp__chrome-devtools__list_pages'',
     ''mcp__chrome-devtools__select_page'',
     ''mcp__chrome-devtools__close_page'',
     ''mcp__chrome-devtools__wait_for'',
     ''mcp__chrome-devtools__take_screenshot'',
     ''mcp__chrome-devtools__take_snapshot'']"

subsection \<open>Session options\<close>

text \<open>
  The behavioural instructions handed to the engine, as the template literal of the source
  spells them, the escaped backquotes unescaped. A \<open>string\<close> is a list of bytes: the few characters of the
  source file outside ASCII stand as their UTF-8 bytes.
\<close>

definition SYSTEM_PROMPT :: string where
  \<open>SYSTEM_PROMPT =
     ''You are a Recipe Finder agent that helps users discover and retrieve recipes from AllRecipes.com. Your mission is to search for recipes based on user queries, navigate the website, extract recipe information, and present it in a clear, organized format.\<newline>'' @
     ''\<newline>'' @
     ''## Available Tools\<newline>'' @
     ''\<newline>'' @
     ''You have access to browser automation tools from chrome-devtools:\<newline>'' @
     ''- navigate_page: Navigate to a URL\<newline>'' @
     ''- click: Click on elements\<newline>'' @
     ''- fill: Fill input fields\<newline>'' @
     ''- fill_form: Fill multiple form fields at once\<newline>'' @
     ''- hover: Hover over elements\<newline>'' @
     ''- press_key: Press keyboard keys\<newline>'' @
     ''- take_screenshot: Capture visual screenshots\<newline>'' @
     ''- take_snapshot: Capture DOM snapshots for analysis\<newline>'' @
     ''- wait_for: Wait for elements or conditions\<newline>'' @
     ''- new_page: Open new browser tabs\<newline>'' @
     ''- list_pages: List all open tabs\<newline>'' @
     ''- select_page: Switch between tabs\<newline>'' @
     ''- close_page: Close tabs\<newline>'' @
     ''\<newline>'' @
     ''## Step-by-Step Strategy\<newline>'' @
     ''\<newline>'' @
     ''### 1. Understanding User Intent\<newline>'' @
     ''- Parse the user's recipe request (ingredient, dish type, cuisine, dietary restrictions)\<newline>'' @
     ''- Clarify ambiguous requests before proceeding\<newline>'' @
     ''- Identify key search terms\<newline>'' @
     ''\<newline>'' @
     ''### 2. Searching AllRecipes\<newline>'' @
     ''- Navigate to https://www.allrecipes.com\<newline>'' @
     ''- Locate the search input field (typically in header/navigation)\<newline>'' @
     ''- Enter the user's search query\<newline>'' @
     ''- Submit the search (press Enter or click search button)\<newline>'' @
     ''- Wait for search results to load\<newline>'' @
     ''\<newline>'' @
     ''### 3. Extracting Search Results\<newline>'' @
     ''- Take a snapshot of the search results page\<newline>'' @
     ''- Identify recipe cards/links in the results\<newline>'' @
     ''- Present top 3-5 recipe options with:\<newline>'' @
     ''  - Recipe name\<newline>'' @
     ''  - Brief description\<newline>'' @
     ''  - Rating (if visible)\<newline>'' @
     ''  - Number of reviews\<newline>'' @
     ''- Ask user which recipe they want details for, or automatically select the top result if appropriate\<newline>'' @
     ''\<newline>'' @
     ''### 4. Retrieving Recipe Details\<newline>'' @
     ''- Navigate to the selected recipe page\<newline>'' @
     ''- Wait for page to fully load\<newline>'' @
     ''- Take a snapshot to extract:\<newline>'' @
     ''  - Recipe title\<newline>'' @
     ''  - Description\<newline>'' @
     ''  - Prep time, cook time, total time\<newline>'' @
     ''  - Servings\<newline>'' @
     ''  - Ingredients list (with quantities)\<newline>'' @
     ''  - Step-by-step instructions\<newline>'' @
     ''  - Nutrition information (if available)\<newline>'' @
     ''  - User rating and review count\<newline>'' @
     ''- Optionally take a screenshot of the recipe image\<newline>'' @
     ''\<newline>'' @
     ''### 5. Presenting Results\<newline>'' @
     ''Format the recipe information clearly:\<newline>'' @
     ''```\<newline>'' @
     ''# [Recipe Name]\<newline>'' @
     ''[Description]\<newline>'' @
     ''\<newline>'' @
     [CHR 0xE2, CHR 0x80, CHR 0x9A, CHR 0xE2, CHR 0x89, CHR 0xA0, CHR 0xC3, CHR 0xAA] @ '' Rating: [X.X/5] ([N] reviews)\<newline>'' @
     [CHR 0xE2, CHR 0x80, CHR 0x9A, CHR 0xC3, CHR 0xA8, CHR 0xC2, CHR 0xB1, CHR 0xC3, CHR 0x94, CHR 0xE2, CHR 0x88, CHR 0x8F, CHR 0xC3, CHR 0xA8] @ '' Prep: [X min] | Cook: [X min] | Total: [X min]\<newline>'' @
     [CHR 0xEF, CHR 0xA3, CHR 0xBF, CHR 0xC3, CHR 0xBC, CHR 0xC3, CHR 0xA7, CHR 0xCE, CHR 0xA9, CHR 0xC3, CHR 0x94, CHR 0xE2, CHR 0x88, CHR 0x8F, CHR 0xC3, CHR 0xA8] @ '' Servings: [N]\<newline>'' @
     ''\<newline>'' @
     ''## Ingredients\<newline>'' @
     ''- [ingredient 1]\<newline>'' @
     ''- [ingredient 2]\<newline>'' @
     ''...\<newline>'' @
     ''\<newline>'' @
     ''## Instructions\<newline>'' @
     ''1. [Step 1]\<newline>'' @
     ''2. [Step 2]\<newline>'' @
     ''...\<newline>'' @
     ''\<newline>'' @
     ''## Nutrition (per serving)\<newline>'' @
     ''[Nutrition facts if available]\<newline>'' @
     ''```\<newline>'' @
     ''\<newline>'' @
     ''## Edge Cases & Error Handling\<newline>'' @
     ''\<newline>'' @
     ''1. **No Results Found**: If search returns no results, suggest alternative search terms or broader queries\<newline>'' @
     ''2. **Page Load Failures**: Retry navigation up to 2 times with wait_for before reporting error\<newline>'' @
     ''3. **Changed Website Layout**: If expected elements aren't found, take a snapshot and attempt to locate similar elements with alternative selectors\<newline>'' @
     ''4. **Multiple Recipe Variations**: When many results exist, ask user to narrow down (e.g., "quick", "easy", "healthy")\<newline>'' @
     ''5. **Paywalled/Premium Content**: Inform user if recipe requires account/subscription\<newline>'' @
     ''6. **Mobile vs Desktop Layout**: Adapt element selection based on page structure\<newline>'' @
     ''\<newline>'' @
     ''## Best Practices\<newline>'' @
     ''\<newline>'' @
     ''- Always wait for pages to fully load before interacting (use wait_for)\<newline>'' @
     ''- Take snapshots to analyze page structure before extracting data\<newline>'' @
     ''- Be patient with navigation - AllRecipes may have ads/popups to handle\<newline>'' @
     ''- Provide progress updates for multi-step processes\<newline>'' @
     ''- If a recipe has user reviews, consider mentioning helpful tips from top reviews\<newline>'' @
     ''- Respect rate limiting - add reasonable delays between requests\<newline>'' @
     ''\<newline>'' @
     ''## Output Format\<newline>'' @
     ''\<newline>'' @
     ''Always structure your final output with:\<newline>'' @
     ''1. Recipe title and source URL\<newline>'' @
     ''2. Key metadata (time, servings, rating)\<newline>'' @
     ''3. Complete ingredients list\<newline>'' @
     ''4. Numbered instructions\<newline>'' @
     ''5. Additional notes or tips when relevant\<newline>'' @
     ''\<newline>'' @
     ''Be helpful, accurate, and make cooking accessible for users of all skill levels!''\<close>

text \<open>
  The fields of \<^verbatim>\<open>Options\<close> that \<^verbatim>\<open>getOptions\<close> sets. The key \<^verbatim>\<open>mcpServers\<close> is
  absent (\<open>None\<close>) unless the spread adds it; when present it is an object from server names
  to launch specifications, here an association list.
\<close>

record Options =
  env :: environment
  systemPrompt :: string
  model :: string
  allowedTools :: "string list"
  maxTurns :: int
  mcpServers :: "(string \<times> McpServerConfig) list option"

definition getOptions :: "environment \<Rightarrow> environment \<Rightarrow> bool \<Rightarrow> Options" where
  "getOptions load_env process_env standalone =
     \<lparr>env = process_env,
      systemPrompt = SYSTEM_PROMPT,
      model = ''haiku'',
      allowedTools = ALLOWED_TOOLS,
      maxTurns = 50,
      mcpServers =
        (if standalone then Some [(''chrome-devtools'', CHROME_DEVTOOLS_MCP_CONFIG load_env)]
         else None)\<rparr>"

subsection \<open>Messages of the engine and events of the adapter\<close>

text \<open>
  The source probes the messages structurally (\<^verbatim>\<open>message as any\<close>), so every field it
  reads is optional here: \<open>None\<close> is an absent (undefined) field. Token counters are
  integers.
\<close>

record block =
  btype :: string
  btext :: "string option"
  bname :: "string option"

record usage_snapshot =
  input_tokens :: "int option"
  output_tokens :: "int option"

record api_message =
  content :: "block list option"
  usage :: "usage_snapshot option"

record raw_message =
  mtype :: string
  message :: "api_message option"
  result :: "string option"

text \<open>
  The yielded objects, by their \<^verbatim>\<open>type\<close> tag: \<^verbatim>\<open>text\<close>, \<^verbatim>\<open>tool\<close>, \<^verbatim>\<open>usage\<close>,
  \<^verbatim>\<open>result\<close>, \<^verbatim>\<open>done\<close>. A tool event carries \<^verbatim>\<open>block.name\<close> whatever it is, also
  undefined.
\<close>

datatype event =
    Text string
  | Tool "string option"
  | Usage int int
  | Result string
  | Done

text \<open>
  \<^verbatim>\<open>x || 0\<close> on a counter: an absent counter is falsy, and so is the number zero.
\<close>

definition or_zero :: "int option \<Rightarrow> int" where
  "or_zero n = (case n of None \<Rightarrow> 0 | Some k \<Rightarrow> if k \<noteq> 0 then k else 0)"

text \<open>\<^verbatim>\<open>message.type === "assistant" && message.message?.content\<close>: the blocks to scan.\<close>

definition assistant_content :: "raw_message \<Rightarrow> block list option" where
  "assistant_content m =
     (if mtype m = ''assistant''
      then (case message m of None \<Rightarrow> None | Some a \<Rightarrow> content a)
      else None)"

text \<open>
  The body of the first loop over the blocks (lines 167 to 169): what one block yields
  there. \<^verbatim>\<open>block.text\<close> is truthy when it is present and not the empty string.
\<close>

definition text_check :: "block \<Rightarrow> event list" where
  "text_check b =
     (if btype b = ''text''
      then (case btext b of None \<Rightarrow> [] | Some t \<Rightarrow> if t \<noteq> [] then [Text t] else [])
      else [])"

text \<open>The body of the second loop over the blocks (lines 174 to 176).\<close>

definition tool_check :: "block \<Rightarrow> event list" where
  "tool_check b = (if btype b = ''tool_use'' then [Tool (bname b)] else [])"

text \<open>The two loops (lines 166 to 170 and 173 to 177), each over the whole block list.\<close>

fun text_scan :: "block list \<Rightarrow> event list" where
  "text_scan [] = []"
| "text_scan (b # bs) = text_check b @ text_scan bs"

fun tool_scan :: "block list \<Rightarrow> event list" where
  "tool_scan [] = []"
| "tool_scan (b # bs) = tool_check b @ tool_scan bs"

definition text_events :: "raw_message \<Rightarrow> event list" where
  "text_events m = (case assistant_content m of None \<Rightarrow> [] | Some bs \<Rightarrow> text_scan bs)"

definition tool_events :: "raw_message \<Rightarrow> event list" where
  "tool_events m = (case assistant_content m of None \<Rightarrow> [] | Some bs \<Rightarrow> tool_scan bs)"

definition usage_events :: "raw_message \<Rightarrow> event list" where
  "usage_events m =
     (case message m of
        None \<Rightarrow> []
      | Some a \<Rightarrow>
          (case usage a of
             None \<Rightarrow> []
           | Some u \<Rightarrow> [Usage (or_zero (input_tokens u)) (or_zero (output_tokens u))]))"

definition result_events :: "raw_message \<Rightarrow> event list" where
  "result_events m =
     (case result m of
        None \<Rightarrow> []
      | Some r \<Rightarrow> if r \<noteq> [] then [Result r] else [])"

text \<open>One iteration of the \<^verbatim>\<open>for await\<close> loop: the four statements of its body, in order.\<close>

definition message_events :: "raw_message \<Rightarrow> event list" where
  "message_events m = text_events m @ tool_events m @ usage_events m @ result_events m"

subsection \<open>The generator\<close>

text \<open>
  What the engine's iterator does when asked for the next message: it hands one over, it
  closes, or it raises a fault. A stream is a finite run of such answers.
\<close>

datatype 'f message_stream =
    Next raw_message "'f message_stream"
  | Closed
  | Fault 'f

datatype 'f completion = Returned | Raised 'f

text \<open>
  The \<^verbatim>\<open>for await\<close> loop and the statement after it. Nothing catches a fault of the
  iterator, so it ends the generator where it occurs.
\<close>

fun for_await :: "'f message_stream \<Rightarrow> event list \<times> 'f completion" where
  "for_await (Next m s) = (case for_await s of (evs, c) \<Rightarrow> (message_events m @ evs, c))"
| "for_await Closed = ([Done], Returned)"
| "for_await (Fault f) = ([], Raised f)"

record request =
  prompt :: string
  options :: Options

definition streamAgent ::
  "(request \<Rightarrow> 'f message_stream) \<Rightarrow> environment \<Rightarrow> environment \<Rightarrow> string
     \<Rightarrow> event list \<times> 'f completion" where
  "streamAgent query load_env process_env p =
     for_await (query \<lparr>prompt = p, options = getOptions load_env process_env True\<rparr>)"

text \<open>Streams that hand over the messages of a list and then close, or raise.\<close>

fun closing :: "raw_message list \<Rightarrow> 'f message_stream" where
  "closing [] = Closed"
| "closing (m # ms) = Next m (closing ms)"

fun faulting :: "raw_message list \<Rightarrow> 'f \<Rightarrow> 'f message_stream" where
  "faulting [] f = Fault f"
| "faulting (m # ms) f = Next m (faulting ms f)"

subsection \<open>Vocabulary of the properties\<close>

text \<open>The kind of an event.\<close>

fun is_text :: "event \<Rightarrow> bool" where
  "is_text (Text t) = True"
| "is_text e = False"

fun is_tool :: "event \<Rightarrow> bool" where
  "is_tool (Tool n) = True"
| "is_tool e = False"

fun is_usage :: "event \<Rightarrow> bool" where
  "is_usage (Usage i out) = True"
| "is_usage e = False"

fun is_result :: "event \<Rightarrow> bool" where
  "is_result (Result r) = True"
| "is_result e = False"

text \<open>
  The order the specification describes for the blocks of one message: a single pass in
  list order, each block inspected for the text shape and then for the tool-invocation
  shape. This is the specification's reading, to be compared with the two loops above.
\<close>

definition spec_block_order :: "block list \<Rightarrow> event list" where
  "spec_block_order bs = concat (map (\<lambda>b. text_check b @ tool_check b) bs)"

text \<open>No block of the tool-invocation shape stands before a block that yields text.\<close>

fun texts_first :: "block list \<Rightarrow> bool" where
  "texts_first [] = True"
| "texts_first (b # bs) = ((tool_check b = [] \<or> text_scan bs = []) \<and> texts_first bs)"


text \<open>Messages used as examples.\<close>

definition text_block :: "string \<Rightarrow> block" where
  "text_block t = \<lparr>btype = ''text'', btext = Some t, bname = None\<rparr>"

definition tool_use_block :: "string \<Rightarrow> block" where
  "tool_use_block n = \<lparr>btype = ''tool_use'', btext = None, bname = Some n\<rparr>"

definition assistant_message :: "block list \<Rightarrow> raw_message" where
  "assistant_message bs =
     \<lparr>mtype = ''assistant'', message = Some \<lparr>content = Some bs, usage = None\<rparr>, result = None\<rparr>"

text \<open>
  The messages a stream hands over before it ends, and what the generator yields once the
  stream has ended: \<open>Done\<close> after a stream that closes (line 187), nothing after one that
  raises.
\<close>

fun handed :: "'f message_stream \<Rightarrow> raw_message list" where
  "handed (Next m s) = m # handed s"
| "handed Closed = []"
| "handed (Fault f) = []"

fun final_events :: "'f message_stream \<Rightarrow> event list" where
  "final_events (Next m s) = final_events s"
| "final_events Closed = [Done]"
| "final_events (Fault f) = []"

section \<open>Auxiliary facts\<close>

lemma text_scan_concat: "text_scan bs = concat (map text_check bs)"
  by (induction bs) simp_all

lemma tool_scan_concat: "tool_scan bs = concat (map tool_check bs)"
  by (induction bs) simp_all

lemma text_check_None: "btext b = None \<Longrightarrow> text_check b = []"
  by (simp add: text_check_def)

lemma text_check_Some:
  "btext b = Some t \<Longrightarrow>
     text_check b = (if btype b = ''text'' \<and> t \<noteq> [] then [Text t] else [])"
  by (simp add: text_check_def)

lemma text_check_kind: "e \<in> set (text_check b) \<Longrightarrow> is_text e"
proof (cases "btext b")
  case None
  assume "e \<in> set (text_check b)"
  with None show ?thesis by (simp add: text_check_None)
next
  case (Some t)
  assume "e \<in> set (text_check b)"
  with Some show ?thesis by (simp add: text_check_Some split: if_splits)
qed

lemma tool_check_kind: "e \<in> set (tool_check b) \<Longrightarrow> is_tool e"
  by (simp add: tool_check_def split: if_splits)

lemma text_scan_kind: "e \<in> set (text_scan bs) \<Longrightarrow> is_text e"
  by (induction bs) (auto dest: text_check_kind)

lemma tool_scan_kind: "e \<in> set (tool_scan bs) \<Longrightarrow> is_tool e"
  by (induction bs) (auto dest: tool_check_kind)

lemma text_events_kind: "e \<in> set (text_events m) \<Longrightarrow> is_text e"
  by (cases "assistant_content m") (auto simp: text_events_def dest: text_scan_kind)

lemma tool_events_kind: "e \<in> set (tool_events m) \<Longrightarrow> is_tool e"
  by (cases "assistant_content m") (auto simp: tool_events_def dest: tool_scan_kind)

lemma usage_events_kind: "e \<in> set (usage_events m) \<Longrightarrow> is_usage e"
  by (auto simp: usage_events_def split: option.splits)

lemma result_events_kind: "e \<in> set (result_events m) \<Longrightarrow> is_result e"
  by (auto simp: result_events_def split: option.splits if_splits)

lemma set_message_events:
  "set (message_events m) =
     set (text_events m) \<union> set (tool_events m) \<union> set (usage_events m) \<union> set (result_events m)"
  by (auto simp: message_events_def)

lemma Done_notin_message_events: "Done \<notin> set (message_events m)"
  unfolding set_message_events
  by (auto dest: text_events_kind tool_events_kind usage_events_kind result_events_kind)

lemma Done_notin_concat: "Done \<notin> set (concat (map message_events ms))"
  by (induction ms) (simp_all add: Done_notin_message_events)

lemma for_await_closing:
  "for_await (closing ms) = (concat (map message_events ms) @ [Done], Returned)"
  by (induction ms) simp_all

lemma for_await_faulting:
  "for_await (faulting ms f) = (concat (map message_events ms), Raised f)"
  by (induction ms) simp_all

lemma filter_none: "(\<And>e. e \<in> set xs \<Longrightarrow> \<not> P e) \<Longrightarrow> filter P xs = []"
  by (induction xs) auto

lemma filter_all: "(\<And>e. e \<in> set xs \<Longrightarrow> P e) \<Longrightarrow> filter P xs = xs"
  by (induction xs) auto

lemma count_list_notin: "x \<notin> set xs \<Longrightarrow> count_list xs x = 0"
  by (induction xs) auto

lemma count_list_append: "count_list (xs @ ys) x = count_list xs x + count_list ys x"
  by (induction xs) auto

lemma texts_first_order: "texts_first bs \<Longrightarrow> text_scan bs @ tool_scan bs = spec_block_order bs"
proof (induction bs)
  case Nil
  then show ?case by (simp add: spec_block_order_def)
next
  case (Cons b bs)
  then have ih: "text_scan bs @ tool_scan bs = spec_block_order bs" by simp
  from Cons.prems have "tool_check b = [] \<or> text_scan bs = []" by simp
  then show ?case
  proof
    assume "tool_check b = []"
    then show ?thesis using ih by (simp add: spec_block_order_def)
  next
    assume e: "text_scan bs = []"
    with ih have "tool_scan bs = spec_block_order bs" by simp
    then show ?thesis using e by (simp add: spec_block_order_def)
  qed
qed

lemma kinds_exclusive:
  "is_text e \<Longrightarrow> \<not> is_tool e" "is_text e \<Longrightarrow> \<not> is_usage e" "is_text e \<Longrightarrow> \<not> is_result e"
  "is_tool e \<Longrightarrow> \<not> is_text e" "is_tool e \<Longrightarrow> \<not> is_usage e" "is_tool e \<Longrightarrow> \<not> is_result e"
  "is_usage e \<Longrightarrow> \<not> is_text e" "is_usage e \<Longrightarrow> \<not> is_tool e" "is_usage e \<Longrightarrow> \<not> is_result e"
  "is_result e \<Longrightarrow> \<not> is_text e" "is_result e \<Longrightarrow> \<not> is_tool e" "is_result e \<Longrightarrow> \<not> is_usage e"
  by (cases e; simp)+

lemma filter_text_message_events: "filter is_text (message_events m) = text_events m"
proof -
  have a: "filter is_text (text_events m) = text_events m"
    by (rule filter_all) (rule text_events_kind)
  have b: "filter is_text (tool_events m) = []"
    by (rule filter_none) (auto dest: tool_events_kind kinds_exclusive)
  have c: "filter is_text (usage_events m) = []"
    by (rule filter_none) (auto dest: usage_events_kind kinds_exclusive)
  have d: "filter is_text (result_events m) = []"
    by (rule filter_none) (auto dest: result_events_kind kinds_exclusive)
  show ?thesis by (simp add: message_events_def a b c d)
qed

lemma filter_tool_message_events: "filter is_tool (message_events m) = tool_events m"
proof -
  have a: "filter is_tool (text_events m) = []"
    by (rule filter_none) (auto dest: text_events_kind kinds_exclusive)
  have b: "filter is_tool (tool_events m) = tool_events m"
    by (rule filter_all) (rule tool_events_kind)
  have c: "filter is_tool (usage_events m) = []"
    by (rule filter_none) (auto dest: usage_events_kind kinds_exclusive)
  have d: "filter is_tool (result_events m) = []"
    by (rule filter_none) (auto dest: result_events_kind kinds_exclusive)
  show ?thesis by (simp add: message_events_def a b c d)
qed

lemma filter_usage_message_events: "filter is_usage (message_events m) = usage_events m"
proof -
  have a: "filter is_usage (text_events m) = []"
    by (rule filter_none) (auto dest: text_events_kind kinds_exclusive)
  have b: "filter is_usage (tool_events m) = []"
    by (rule filter_none) (auto dest: tool_events_kind kinds_exclusive)
  have c: "filter is_usage (usage_events m) = usage_events m"
    by (rule filter_all) (rule usage_events_kind)
  have d: "filter is_usage (result_events m) = []"
    by (rule filter_none) (auto dest: result_events_kind kinds_exclusive)
  show ?thesis by (simp add: message_events_def a b c d)
qed

lemma filter_result_message_events: "filter is_result (message_events m) = result_events m"
proof -
  have a: "filter is_result (text_events m) = []"
    by (rule filter_none) (auto dest: text_events_kind kinds_exclusive)
  have b: "filter is_result (tool_events m) = []"
    by (rule filter_none) (auto dest: tool_events_kind kinds_exclusive)
  have c: "filter is_result (usage_events m) = []"
    by (rule filter_none) (auto dest: usage_events_kind kinds_exclusive)
  have d: "filter is_result (result_events m) = result_events m"
    by (rule filter_all) (rule result_events_kind)
  show ?thesis by (simp add: message_events_def a b c d)
qed

lemma after_texts_not_text:
  "e \<in> set (tool_events m @ usage_events m @ result_events m) \<Longrightarrow> \<not> is_text e"
  by (auto dest: tool_events_kind usage_events_kind result_events_kind
      kinds_exclusive)

lemma text_before_tool_index:
  assumes "i < j" and "j < length (message_events m)" and "is_text (message_events m ! j)"
  shows "\<not> is_tool (message_events m ! i)"
proof -
  let ?A = "text_events m"
  let ?R = "tool_events m @ usage_events m @ result_events m"
  have evs: "message_events m = ?A @ ?R"
    by (simp add: message_events_def)
  have j: "j < length ?A"
  proof (rule ccontr)
    assume "\<not> j < length ?A"
    then have ge: "length ?A \<le> j" by simp
    then have "message_events m ! j = ?R ! (j - length ?A)"
      unfolding evs by (simp add: nth_append)
    moreover have "j - length ?A < length ?R"
      using assms(2) ge unfolding evs by simp
    ultimately have "message_events m ! j \<in> set ?R"
      by (metis nth_mem)
    then show False
      using assms(3) after_texts_not_text by blast
  qed
  then have "i < length ?A" using assms(1) by simp
  then have "message_events m ! i \<in> set ?A"
    unfolding evs by (simp add: nth_append)
  then show ?thesis
    by (auto dest: text_events_kind kinds_exclusive)
qed

lemma text_events_Some: "assistant_content m = Some bs \<Longrightarrow> text_events m = concat (map text_check bs)"
  by (simp add: text_events_def text_scan_concat)

lemma tool_events_Some: "assistant_content m = Some bs \<Longrightarrow> tool_events m = concat (map tool_check bs)"
  by (simp add: tool_events_def tool_scan_concat)

lemma hello_click:
  "message_events (assistant_message [text_block ''Hello'', tool_use_block ''click'']) =
     [Text ''Hello'', Tool (Some ''click'')]"
  by (simp add: message_events_def text_events_def tool_events_def usage_events_def
      result_events_def assistant_content_def assistant_message_def text_block_def
      tool_use_block_def text_check_def tool_check_def)

lemma click_hello:
  "message_events (assistant_message [tool_use_block ''click'', text_block ''Hello'']) =
     [Text ''Hello'', Tool (Some ''click'')]"
  by (simp add: message_events_def text_events_def tool_events_def usage_events_def
      result_events_def assistant_content_def assistant_message_def text_block_def
      tool_use_block_def text_check_def tool_check_def)

lemma assistant_content_assistant_message: "assistant_content (assistant_message bs) = Some bs"
  by (simp add: assistant_content_def assistant_message_def)

lemma fst_for_await:
  "fst (for_await s) = concat (map message_events (handed s)) @ final_events s"
  by (induction s) (simp_all add: case_prod_beta)

lemma fst_streamAgent:
  "fst (streamAgent query load_env process_env p) =
     concat (map message_events
       (handed (query \<lparr>prompt = p, options = getOptions load_env process_env True\<rparr>))) @
     final_events (query \<lparr>prompt = p, options = getOptions load_env process_env True\<rparr>)"
  by (simp add: streamAgent_def fst_for_await)

lemma handed_closing: "handed (closing ms) = ms"
  by (induction ms) simp_all

lemma final_events_closing: "final_events (closing ms) = [Done]"
  by (induction ms) simp_all

lemma handed_faulting: "handed (faulting ms f) = ms"
  by (induction ms) simp_all

lemma final_events_faulting: "final_events (faulting ms f) = []"
  by (induction ms) simp_all

lemma filter_result_final_events: "filter is_result (final_events s) = []"
  by (induction s) simp_all

lemma Result_notin_final_events: "Result t \<notin> set (final_events s)"
  by (induction s) simp_all

lemma filter_concat_map: "filter P (concat (map f xs)) = concat (map (\<lambda>x. filter P (f x)) xs)"
  by (induction xs) simp_all

lemma streamAgent_closing:
  "streamAgent (\<lambda>r. closing ms) load_env process_env p =
     (concat (map message_events ms) @ [Done], Returned)"
  by (simp add: streamAgent_def for_await_closing)

lemma set_fst_streamAgent:
  "set (fst (streamAgent query load_env process_env p)) =
     (\<Union>m \<in> set (handed (query \<lparr>prompt = p, options = getOptions load_env process_env True\<rparr>)).
        set (message_events m)) \<union>
     set (final_events (query \<lparr>prompt = p, options = getOptions load_env process_env True\<rparr>))"
  by (simp add: fst_streamAgent)

lemma Result_in_message_events:
  "(Result t \<in> set (message_events m)) = (result m = Some t \<and> t \<noteq> [])"
proof -
  have a: "Result t \<notin> set (text_events m)"
    using text_events_kind [of "Result t" m] by auto
  have b: "Result t \<notin> set (tool_events m)"
    using tool_events_kind [of "Result t" m] by auto
  have c: "Result t \<notin> set (usage_events m)"
    using usage_events_kind [of "Result t" m] by auto
  have d: "(Result t \<in> set (result_events m)) = (result m = Some t \<and> t \<noteq> [])"
    by (cases "result m") (auto simp: result_events_def)
  show ?thesis
    using a b c d by (simp add: set_message_events)
qed

lemma segment_nth:
  assumes "j < length ys"
  shows "(xs @ ys @ zs) ! (length xs + j) = ys ! j"
  using assms by (simp add: nth_append)

lemma usage_events_Some:
  "message m = Some a \<Longrightarrow> usage a = Some u \<Longrightarrow>
     usage_events m =
       [Usage (case input_tokens u of None \<Rightarrow> 0 | Some n \<Rightarrow> n)
              (case output_tokens u of None \<Rightarrow> 0 | Some n \<Rightarrow> n)]"
proof -
  assume m: "message m = Some a" and u: "usage a = Some u"
  have z: "or_zero k = (case k of None \<Rightarrow> 0 | Some n \<Rightarrow> n)" for k
    by (cases k) (simp_all add: or_zero_def)
  show ?thesis
    using m u by (simp add: usage_events_def z)
qed

lemma usage_example:
  "message_events
     \<lparr>mtype = t,
      message = Some \<lparr>content = c,
        usage = Some \<lparr>input_tokens = Some 10, output_tokens = Some 5\<rparr>\<rparr>,
      result = None\<rparr> =
   (if t = ''assistant'' then (case c of None \<Rightarrow> [] | Some bs \<Rightarrow> text_scan bs @ tool_scan bs) else [])
     @ [Usage 10 5]"
  by (cases c) (simp_all add: message_events_def text_events_def tool_events_def usage_events_def
        result_events_def assistant_content_def or_zero_def)


section \<open>Properties\<close>

text \<open>
  C1. Whenever the engine's stream hands over a finite list of messages and then closes,
  \<^verbatim>\<open>streamAgent\<close> returns normally and its events are the events of the messages, in
  arrival order, followed by \<open>Done\<close>: \<open>Done\<close> is the last event, it occurs exactly once, no
  message contributes a \<open>Done\<close>, and the empty stream gives exactly \<open>[Done]\<close>.
\<close>

theorem streamAgent_ends_with_Done:
  assumes "query \<lparr>prompt = p, options = getOptions load_env process_env True\<rparr> = closing ms"
  shows "streamAgent query load_env process_env p =
           (concat (map message_events ms) @ [Done], Returned) \<and>
         Done \<notin> set (concat (map message_events ms)) \<and>
         last (fst (streamAgent query load_env process_env p)) = Done \<and>
         count_list (fst (streamAgent query load_env process_env p)) Done = 1 \<and>
         (ms = [] \<longrightarrow> streamAgent query load_env process_env p = ([Done], Returned))"
proof -
  have run: "streamAgent query load_env process_env p =
               (concat (map message_events ms) @ [Done], Returned)"
    using assms by (simp add: streamAgent_def for_await_closing)
  have none: "Done \<notin> set (concat (map message_events ms))"
    by (rule Done_notin_concat)
  have cnt: "count_list (concat (map message_events ms) @ [Done]) Done = 1"
    using none by (simp add: count_list_append count_list_notin)
  show ?thesis
    using run none cnt by simp
qed

theorem streamAgent_ends_with_Done_witness:
  "streamAgent (\<lambda>r. closing []) Map.empty Map.empty ''find a soup'' = ([Done], Returned :: unit completion) \<and>
   streamAgent
     (\<lambda>r. closing [assistant_message [text_block ''Hello'', tool_use_block ''click''],
                    \<lparr>mtype = ''result'', message = None, result = Some ''ok''\<rparr>])
     Map.empty Map.empty ''find a soup'' =
     ([Text ''Hello'', Tool (Some ''click''), Result ''ok'', Done], Returned :: unit completion)"
proof -
  have a: "streamAgent (\<lambda>r. closing []) Map.empty Map.empty ''find a soup'' =
             ([Done], Returned :: unit completion)"
    using streamAgent_ends_with_Done
      [of "\<lambda>r. closing [] :: unit message_stream" "''find a soup''" Map.empty Map.empty "[]"]
    by simp
  have b: "streamAgent
     (\<lambda>r. closing [assistant_message [text_block ''Hello'', tool_use_block ''click''],
                    \<lparr>mtype = ''result'', message = None, result = Some ''ok''\<rparr>])
     Map.empty Map.empty ''find a soup'' =
     ([Text ''Hello'', Tool (Some ''click''), Result ''ok'', Done], Returned :: unit completion)"
    using streamAgent_ends_with_Done
      [of "\<lambda>r. closing [assistant_message [text_block ''Hello'', tool_use_block ''click''],
                    \<lparr>mtype = ''result'', message = None, result = Some ''ok''\<rparr>] :: unit message_stream"
          "''find a soup''" Map.empty Map.empty
          "[assistant_message [text_block ''Hello'', tool_use_block ''click''],
                    \<lparr>mtype = ''result'', message = None, result = Some ''ok''\<rparr>]"]
    by (simp add: message_events_def text_events_def tool_events_def usage_events_def
        result_events_def assistant_content_def assistant_message_def text_block_def
        tool_use_block_def text_check_def tool_check_def)
  show ?thesis using a b by simp
qed

text \<open>
  C2. As stated, the events of the blocks of one message would follow the list order of
  the blocks whatever that order is. The generator runs two loops over the blocks, so for a
  stream of one message whose tool-invocation block stands before its text block it yields
  the text event first.
\<close>

theorem block_order_counterexample:
  "streamAgent
     (\<lambda>r. closing [assistant_message [tool_use_block ''click'', text_block ''Hello'']])
     Map.empty Map.empty ''find a soup'' =
     ([Text ''Hello'', Tool (Some ''click''), Done], Returned :: unit completion) \<and>
   spec_block_order [tool_use_block ''click'', text_block ''Hello''] =
     [Tool (Some ''click''), Text ''Hello''] \<and>
   fst (streamAgent
     (\<lambda>r. closing [assistant_message [tool_use_block ''click'', text_block ''Hello'']]
        :: unit message_stream)
     Map.empty Map.empty ''find a soup'') \<noteq>
     spec_block_order [tool_use_block ''click'', text_block ''Hello''] @ [Done]"
proof -
  have so: "spec_block_order [tool_use_block ''click'', text_block ''Hello''] =
     [Tool (Some ''click''), Text ''Hello'']"
    by (simp add: spec_block_order_def text_block_def tool_use_block_def text_check_def
        tool_check_def)
  have run: "streamAgent
     (\<lambda>r. closing [assistant_message [tool_use_block ''click'', text_block ''Hello'']])
     Map.empty Map.empty ''find a soup'' =
     ([Text ''Hello'', Tool (Some ''click''), Done], Returned :: 'f completion)"
    unfolding streamAgent_closing by (simp add: click_hello)
  show ?thesis
    unfolding so run by simp
qed

text \<open>
  C2, amended. For an assistant message with content blocks, anywhere in the stream, the
  generator inspects every block for the text shape and for the tool-invocation shape: after
  the events of the earlier messages it yields the events of the text check over the blocks
  in list order, then those of the tool check over the blocks in list order, then usage and
  result, then the events of the later messages. These events follow the list order of the
  blocks whenever no tool-invocation block stands before a block that yields text, as for
  the blocks \<open>Hello\<close> and \<open>click\<close>, for which it yields \<open>Text Hello\<close> and then
  \<open>Tool click\<close>.
\<close>

theorem message_events_block_order:
  assumes "query \<lparr>prompt = p, options = getOptions load_env process_env True\<rparr> = s"
    and "handed s = ms1 @ m # ms2"
    and "assistant_content m = Some bs"
  shows "fst (streamAgent query load_env process_env p) =
           concat (map message_events ms1) @
           concat (map text_check bs) @ concat (map tool_check bs) @
           usage_events m @ result_events m @
           concat (map message_events ms2) @ final_events s \<and>
         (texts_first bs \<longrightarrow>
            fst (streamAgent query load_env process_env p) =
              concat (map message_events ms1) @
              spec_block_order bs @ usage_events m @ result_events m @
              concat (map message_events ms2) @ final_events s) \<and>
         message_events m =
           concat (map text_check bs) @ concat (map tool_check bs) @
           usage_events m @ result_events m \<and>
         streamAgent
           (\<lambda>r. closing [assistant_message [text_block ''Hello'', tool_use_block ''click'']])
           load_env process_env p =
           ([Text ''Hello'', Tool (Some ''click''), Done], Returned)"
proof -
  have two: "message_events m =
           concat (map text_check bs) @ concat (map tool_check bs) @
           usage_events m @ result_events m"
    using assms(3) by (simp add: message_events_def text_events_Some tool_events_Some)
  have run: "fst (streamAgent query load_env process_env p) =
           concat (map message_events ms1) @ message_events m @
           concat (map message_events ms2) @ final_events s"
    using assms(1,2) by (simp add: fst_streamAgent)
  have a: "fst (streamAgent query load_env process_env p) =
           concat (map message_events ms1) @
           concat (map text_check bs) @ concat (map tool_check bs) @
           usage_events m @ result_events m @
           concat (map message_events ms2) @ final_events s"
    unfolding run two by simp
  have b: "fst (streamAgent query load_env process_env p) =
              concat (map message_events ms1) @
              spec_block_order bs @ usage_events m @ result_events m @
              concat (map message_events ms2) @ final_events s"
    if "texts_first bs"
  proof -
    have "text_scan bs @ tool_scan bs = spec_block_order bs"
      using that by (rule texts_first_order)
    then have "concat (map text_check bs) @ concat (map tool_check bs) = spec_block_order bs"
      by (simp add: text_scan_concat tool_scan_concat)
    then have "message_events m = spec_block_order bs @ usage_events m @ result_events m"
      using two by simp
    then show ?thesis
      unfolding run by simp
  qed
  have ex: "streamAgent
           (\<lambda>r. closing [assistant_message [text_block ''Hello'', tool_use_block ''click'']])
           load_env process_env p =
           ([Text ''Hello'', Tool (Some ''click''), Done], Returned)"
    unfolding streamAgent_closing by (simp add: hello_click)
  show ?thesis
    using a b two ex by blast
qed

theorem message_events_block_order_witness:
  "texts_first [text_block ''Hello'', tool_use_block ''click''] \<and>
   fst (streamAgent
     (\<lambda>r. closing [assistant_message [text_block ''Hello'', tool_use_block ''click''],
                    \<lparr>mtype = ''result'', message = None, result = Some ''ok''\<rparr>]
        :: unit message_stream)
     Map.empty Map.empty ''find a soup'') =
     spec_block_order [text_block ''Hello'', tool_use_block ''click''] @ [Result ''ok'', Done] \<and>
   spec_block_order [text_block ''Hello'', tool_use_block ''click''] =
     [Text ''Hello'', Tool (Some ''click'')]"
proof -
  let ?bs = "[text_block ''Hello'', tool_use_block ''click'']"
  let ?m2 = "\<lparr>mtype = ''result'', message = None, result = Some ''ok''\<rparr>"
  let ?s = "closing [assistant_message ?bs, ?m2] :: unit message_stream"
  have tf: "texts_first ?bs"
    by (simp add: text_block_def tool_use_block_def text_check_def tool_check_def)
  have so: "spec_block_order ?bs = [Text ''Hello'', Tool (Some ''click'')]"
    by (simp add: spec_block_order_def text_block_def tool_use_block_def text_check_def
        tool_check_def)
  have ur: "usage_events (assistant_message ?bs) = []" "result_events (assistant_message ?bs) = []"
    by (simp_all add: usage_events_def result_events_def assistant_message_def)
  have m2: "message_events ?m2 = [Result ''ok'']"
    by (simp add: message_events_def text_events_def tool_events_def usage_events_def
        result_events_def assistant_content_def)
  have q: "(\<lambda>r. ?s) \<lparr>prompt = ''find a soup'', options = getOptions Map.empty Map.empty True\<rparr> = ?s"
    by simp
  have h: "handed ?s = [] @ assistant_message ?bs # [?m2]"
    by (simp add: handed_closing)
  have "texts_first ?bs \<longrightarrow>
      fst (streamAgent (\<lambda>r. ?s) Map.empty Map.empty ''find a soup'') =
        concat (map message_events []) @
        spec_block_order ?bs @ usage_events (assistant_message ?bs) @
        result_events (assistant_message ?bs) @
        concat (map message_events [?m2]) @ final_events ?s"
    using message_events_block_order [OF q h assistant_content_assistant_message]
    by blast
  with tf have "fst (streamAgent (\<lambda>r. ?s) Map.empty Map.empty ''find a soup'') =
        concat (map message_events []) @
        spec_block_order ?bs @ usage_events (assistant_message ?bs) @
        result_events (assistant_message ?bs) @
        concat (map message_events [?m2]) @ final_events ?s"
    by blast
  then have "fst (streamAgent (\<lambda>r. ?s) Map.empty Map.empty ''find a soup'') =
        spec_block_order ?bs @ [Result ''ok'', Done]"
    unfolding ur final_events_closing by (simp add: m2)
  with tf so show ?thesis by blast
qed


text \<open>
  C3. When \<^verbatim>\<open>CHROME_PATH\<close> is \<^verbatim>\<open>/usr/bin/chromium\<close> the launch arguments are the seven
  baseline arguments followed by exactly five more: the executable path and the flags
  no-sandbox, disable-setuid-sandbox, disable-dev-shm-usage and disable-gpu. For every other
  environment, the variable absent or different, they are exactly the baseline arguments.
\<close>

theorem buildChromeDevToolsArgs_branches:
  "(e ''CHROME_PATH'' = Some ''/usr/bin/chromium'' \<longrightarrow>
      buildChromeDevToolsArgs e =
        [''-y'', ''chrome-devtools-mcp@latest'', ''--headless'', ''--isolated'',
         ''--no-category-emulation'', ''--no-category-performance'', ''--no-category-network'',
         ''--executable-path=/usr/bin/chromium'', ''--chrome-arg=--no-sandbox'',
         ''--chrome-arg=--disable-setuid-sandbox'', ''--chrome-arg=--disable-dev-shm-usage'',
         ''--chrome-arg=--disable-gpu''] \<and>
      take (length baseArgs) (buildChromeDevToolsArgs e) = baseArgs \<and>
      length (buildChromeDevToolsArgs e) = length baseArgs + 5) \<and>
   (e ''CHROME_PATH'' \<noteq> Some ''/usr/bin/chromium'' \<longrightarrow>
      buildChromeDevToolsArgs e = baseArgs \<and>
      buildChromeDevToolsArgs e =
        [''-y'', ''chrome-devtools-mcp@latest'', ''--headless'', ''--isolated'',
         ''--no-category-emulation'', ''--no-category-performance'', ''--no-category-network''])"
  by (simp add: buildChromeDevToolsArgs_def isContainer_def baseArgs_def)

theorem buildChromeDevToolsArgs_branches_witness:
  "buildChromeDevToolsArgs [''CHROME_PATH'' \<mapsto> ''/usr/bin/chromium''] =
     baseArgs @ [''--executable-path=/usr/bin/chromium'', ''--chrome-arg=--no-sandbox'',
       ''--chrome-arg=--disable-setuid-sandbox'', ''--chrome-arg=--disable-dev-shm-usage'',
       ''--chrome-arg=--disable-gpu''] \<and>
   buildChromeDevToolsArgs Map.empty = baseArgs \<and>
   buildChromeDevToolsArgs [''CHROME_PATH'' \<mapsto> ''/usr/bin/google-chrome''] = baseArgs"
proof -
  have c: "[''CHROME_PATH'' \<mapsto> ''/usr/bin/chromium''] ''CHROME_PATH'' = Some ''/usr/bin/chromium''"
    by simp
  have a: "(Map.empty :: environment) ''CHROME_PATH'' \<noteq> Some ''/usr/bin/chromium''"
    by simp
  have d: "[''CHROME_PATH'' \<mapsto> ''/usr/bin/google-chrome''] ''CHROME_PATH'' \<noteq> Some ''/usr/bin/chromium''"
    by simp
  show ?thesis
    using buildChromeDevToolsArgs_branches [of "[''CHROME_PATH'' \<mapsto> ''/usr/bin/chromium'']"]
      buildChromeDevToolsArgs_branches [of Map.empty]
      buildChromeDevToolsArgs_branches [of "[''CHROME_PATH'' \<mapsto> ''/usr/bin/google-chrome'']"]
      c a d
    by (simp add: baseArgs_def)
qed

text \<open>
  C4. Whenever the engine's stream hands over a list of messages and then raises a fault,
  \<^verbatim>\<open>streamAgent\<close> yields exactly the events of those messages and completes by raising
  that same fault; no \<open>Done\<close> is among its events.
\<close>

theorem streamAgent_fault_propagates:
  assumes "query \<lparr>prompt = p, options = getOptions load_env process_env True\<rparr> = faulting ms f"
  shows "streamAgent query load_env process_env p = (concat (map message_events ms), Raised f) \<and>
         Done \<notin> set (fst (streamAgent query load_env process_env p))"
proof -
  have run: "streamAgent query load_env process_env p =
               (concat (map message_events ms), Raised f)"
    using assms by (simp add: streamAgent_def for_await_faulting)
  show ?thesis
    using run Done_notin_concat [of ms] by simp
qed

theorem streamAgent_fault_propagates_witness:
  "streamAgent (\<lambda>r. faulting [assistant_message [text_block ''partial'']] ''connection lost'')
     Map.empty Map.empty ''find a soup'' =
     ([Text ''partial''], Raised ''connection lost'')"
  using streamAgent_fault_propagates
      [of "\<lambda>r. faulting [assistant_message [text_block ''partial'']] ''connection lost''"
          "''find a soup''" Map.empty Map.empty
          "[assistant_message [text_block ''partial'']]" "''connection lost''"]
  by (simp add: message_events_def text_events_def tool_events_def usage_events_def
        result_events_def assistant_content_def assistant_message_def text_block_def
        text_check_def tool_check_def)

text \<open>
  C5. \<^verbatim>\<open>ALLOWED_TOOLS\<close> is a constant: thirteen distinct identifiers, the thirteen tool
  names under the prefix of the chrome-devtools server, and the options of every
  environment and mode carry this same list.
\<close>

theorem ALLOWED_TOOLS_fixed:
  "ALLOWED_TOOLS =
     map (\<lambda>n. ''mcp__chrome-devtools__'' @ n)
       [''click'', ''fill'', ''fill_form'', ''hover'', ''press_key'', ''navigate_page'',
        ''new_page'', ''list_pages'', ''select_page'', ''close_page'', ''wait_for'',
        ''take_screenshot'', ''take_snapshot''] \<and>
   length ALLOWED_TOOLS = 13 \<and>
   distinct ALLOWED_TOOLS \<and>
   card (set ALLOWED_TOOLS) = 13 \<and>
   allowedTools (getOptions load_env process_env standalone) = ALLOWED_TOOLS"
proof -
  have d: "distinct ALLOWED_TOOLS"
    by (simp add: ALLOWED_TOOLS_def)
  have l: "length ALLOWED_TOOLS = 13"
    by (simp add: ALLOWED_TOOLS_def)
  have c: "card (set ALLOWED_TOOLS) = 13"
    using d l by (simp add: distinct_card)
  have m: "ALLOWED_TOOLS =
     map (\<lambda>n. ''mcp__chrome-devtools__'' @ n)
       [''click'', ''fill'', ''fill_form'', ''hover'', ''press_key'', ''navigate_page'',
        ''new_page'', ''list_pages'', ''select_page'', ''close_page'', ''wait_for'',
        ''take_screenshot'', ''take_snapshot'']"
    by (simp add: ALLOWED_TOOLS_def)
  have g: "allowedTools (getOptions load_env process_env standalone) = ALLOWED_TOOLS"
    by (simp add: getOptions_def)
  show ?thesis using d l c m g by blast
qed

text \<open>
  C6. For every prompt, \<^verbatim>\<open>streamAgent\<close> calls the engine with that prompt and the standalone
  options: the launch specification under the key \<^verbatim>\<open>chrome-devtools\<close>, the allow-list, fifty
  turns at most and the model \<^verbatim>\<open>haiku\<close>. The bound on turns is positive in either mode,
  and the options that are not standalone carry no \<^verbatim>\<open>mcpServers\<close>.
\<close>

theorem streamAgent_standalone_options:
  "streamAgent query load_env process_env p =
     for_await (query \<lparr>prompt = p, options =
       \<lparr>env = process_env, systemPrompt = SYSTEM_PROMPT, model = ''haiku'',
        allowedTools = ALLOWED_TOOLS, maxTurns = 50,
        mcpServers = Some [(''chrome-devtools'',
          \<lparr>server_type = ''stdio'', command = ''npx'',
           args = buildChromeDevToolsArgs load_env\<rparr>)]\<rparr>\<rparr>) \<and>
   0 < maxTurns (getOptions load_env process_env standalone) \<and>
   model (getOptions load_env process_env standalone) = ''haiku'' \<and>
   mcpServers (getOptions load_env process_env False) = None"
  by (simp add: streamAgent_def getOptions_def CHROME_DEVTOOLS_MCP_CONFIG_def)

text \<open>
  C7. For a message of the stream that carries a usage snapshot, the generator yields, after
  the events of the earlier messages and of the content blocks of this one and before its
  result event, one \<open>Usage\<close> event with the counters of the snapshot and zero for a missing
  counter; it is the only usage event of the message. For a stream of one message with the
  snapshot of 10 input and 5 output tokens, no content blocks and no result, the generator
  yields exactly \<open>Usage 10 5\<close> and \<open>Done\<close>.
\<close>

theorem usage_event_emitted:
  assumes "query \<lparr>prompt = p, options = getOptions load_env process_env True\<rparr> = s"
    and "handed s = ms1 @ m # ms2"
    and "message m = Some a" and "usage a = Some u"
  shows "fst (streamAgent query load_env process_env p) =
           concat (map message_events ms1) @
           text_events m @ tool_events m @
           [Usage (case input_tokens u of None \<Rightarrow> 0 | Some n \<Rightarrow> n)
                  (case output_tokens u of None \<Rightarrow> 0 | Some n \<Rightarrow> n)] @
           result_events m @
           concat (map message_events ms2) @ final_events s \<and>
         message_events m =
           text_events m @ tool_events m @
           [Usage (case input_tokens u of None \<Rightarrow> 0 | Some n \<Rightarrow> n)
                  (case output_tokens u of None \<Rightarrow> 0 | Some n \<Rightarrow> n)] @
           result_events m \<and>
         filter is_usage (message_events m) =
           [Usage (case input_tokens u of None \<Rightarrow> 0 | Some n \<Rightarrow> n)
                  (case output_tokens u of None \<Rightarrow> 0 | Some n \<Rightarrow> n)] \<and>
         streamAgent
           (\<lambda>r. closing
              [\<lparr>mtype = t,
                message = Some \<lparr>content = None,
                  usage = Some \<lparr>input_tokens = Some 10, output_tokens = Some 5\<rparr>\<rparr>,
                result = None\<rparr>])
           load_env process_env p = ([Usage 10 5, Done], Returned) \<and>
         streamAgent
           (\<lambda>r. closing
              [\<lparr>mtype = t,
                message = Some \<lparr>content = Some [],
                  usage = Some \<lparr>input_tokens = Some 10, output_tokens = Some 5\<rparr>\<rparr>,
                result = None\<rparr>])
           load_env process_env p = ([Usage 10 5, Done], Returned)"
proof -
  have us: "usage_events m =
      [Usage (case input_tokens u of None \<Rightarrow> 0 | Some n \<Rightarrow> n)
             (case output_tokens u of None \<Rightarrow> 0 | Some n \<Rightarrow> n)]"
    using assms(3,4) by (rule usage_events_Some)
  have all: "message_events m =
           text_events m @ tool_events m @
           [Usage (case input_tokens u of None \<Rightarrow> 0 | Some n \<Rightarrow> n)
                  (case output_tokens u of None \<Rightarrow> 0 | Some n \<Rightarrow> n)] @
           result_events m"
    by (simp add: message_events_def us)
  have run: "fst (streamAgent query load_env process_env p) =
           concat (map message_events ms1) @ message_events m @
           concat (map message_events ms2) @ final_events s"
    using assms(1,2) by (simp add: fst_streamAgent)
  have str: "fst (streamAgent query load_env process_env p) =
           concat (map message_events ms1) @
           text_events m @ tool_events m @
           [Usage (case input_tokens u of None \<Rightarrow> 0 | Some n \<Rightarrow> n)
                  (case output_tokens u of None \<Rightarrow> 0 | Some n \<Rightarrow> n)] @
           result_events m @
           concat (map message_events ms2) @ final_events s"
    unfolding run all by simp
  have one: "filter is_usage (message_events m) =
           [Usage (case input_tokens u of None \<Rightarrow> 0 | Some n \<Rightarrow> n)
                  (case output_tokens u of None \<Rightarrow> 0 | Some n \<Rightarrow> n)]"
    by (simp add: filter_usage_message_events us)
  have ex1: "streamAgent
           (\<lambda>r. closing
              [\<lparr>mtype = t,
                message = Some \<lparr>content = None,
                  usage = Some \<lparr>input_tokens = Some 10, output_tokens = Some 5\<rparr>\<rparr>,
                result = None\<rparr>])
           load_env process_env p = ([Usage 10 5, Done], Returned)"
    unfolding streamAgent_closing by (simp add: usage_example)
  have ex2: "streamAgent
           (\<lambda>r. closing
              [\<lparr>mtype = t,
                message = Some \<lparr>content = Some [],
                  usage = Some \<lparr>input_tokens = Some 10, output_tokens = Some 5\<rparr>\<rparr>,
                result = None\<rparr>])
           load_env process_env p = ([Usage 10 5, Done], Returned)"
    unfolding streamAgent_closing by (simp add: usage_example)
  show ?thesis
    using str all one ex1 ex2 by blast
qed

theorem usage_event_emitted_witness:
  "fst (streamAgent
     (\<lambda>r. closing
        [assistant_message [text_block ''Hello''],
         \<lparr>mtype = ''assistant'',
          message = Some \<lparr>content = Some [text_block ''Hi''],
            usage = Some \<lparr>input_tokens = Some 10, output_tokens = None\<rparr>\<rparr>,
          result = None\<rparr>] :: unit message_stream)
     Map.empty Map.empty ''find a soup'') =
   [Text ''Hello'', Text ''Hi'', Usage 10 0, Done]"
proof -
  let ?a = "\<lparr>content = Some [text_block ''Hi''],
            usage = Some \<lparr>input_tokens = Some 10, output_tokens = None\<rparr>\<rparr>"
  let ?m = "\<lparr>mtype = ''assistant'', message = Some ?a, result = None\<rparr>"
  let ?m1 = "assistant_message [text_block ''Hello'']"
  let ?s = "closing [?m1, ?m] :: unit message_stream"
  have q: "(\<lambda>r. ?s) \<lparr>prompt = ''find a soup'', options = getOptions Map.empty Map.empty True\<rparr> = ?s"
    by simp
  have h: "handed ?s = [?m1] @ ?m # []"
    by (simp add: handed_closing)
  have m: "message ?m = Some ?a"
    by simp
  have u: "usage ?a = Some \<lparr>input_tokens = Some 10, output_tokens = None\<rparr>"
    by simp
  have m1: "message_events ?m1 = [Text ''Hello'']"
    by (simp add: message_events_def text_events_def tool_events_def usage_events_def
        result_events_def assistant_content_def assistant_message_def text_block_def
        text_check_def tool_check_def)
  have parts: "text_events ?m = [Text ''Hi'']" "tool_events ?m = []" "result_events ?m = []"
    by (simp_all add: text_events_def tool_events_def result_events_def assistant_content_def
        text_block_def text_check_def tool_check_def)
  have "fst (streamAgent (\<lambda>r. ?s) Map.empty Map.empty ''find a soup'') =
           concat (map message_events [?m1]) @
           text_events ?m @ tool_events ?m @
           [Usage (case input_tokens \<lparr>input_tokens = Some 10, output_tokens = None\<rparr> of
                     None \<Rightarrow> 0 | Some n \<Rightarrow> n)
                  (case output_tokens \<lparr>input_tokens = Some 10, output_tokens = None\<rparr> of
                     None \<Rightarrow> 0 | Some n \<Rightarrow> n)] @
           result_events ?m @
           concat (map message_events []) @ final_events ?s"
    using usage_event_emitted [OF q h m u] by blast
  then show ?thesis
    unfolding parts final_events_closing by (simp add: m1)
qed




text \<open>
  C9. The generator yields \<open>Result t\<close> exactly when some message of the stream has the
  result field \<open>t\<close> and \<open>t\<close> is not empty; its result events are, in arrival order, one for
  each message with a non-empty result field and none for a message whose field is absent
  or empty.
\<close>

theorem result_event_iff_nonempty:
  assumes "query \<lparr>prompt = p, options = getOptions load_env process_env True\<rparr> = s"
  shows "(Result t \<in> set (fst (streamAgent query load_env process_env p))) =
           (\<exists>m \<in> set (handed s). result m = Some t \<and> t \<noteq> []) \<and>
         filter is_result (fst (streamAgent query load_env process_env p)) =
           concat (map (\<lambda>m. case result m of
                               None \<Rightarrow> []
                             | Some r \<Rightarrow> if r \<noteq> [] then [Result r] else [])
                       (handed s)) \<and>
         (Result t \<in> set (message_events m)) = (result m = Some t \<and> t \<noteq> []) \<and>
         filter is_result (message_events m) =
           (case result m of None \<Rightarrow> [] | Some r \<Rightarrow> if r \<noteq> [] then [Result r] else [])"
proof -
  have a: "(Result t \<in> set (fst (streamAgent query load_env process_env p))) =
           (\<exists>m \<in> set (handed s). result m = Some t \<and> t \<noteq> [])"
    unfolding set_fst_streamAgent assms
    by (simp add: Result_notin_final_events Result_in_message_events)
  have e: "filter is_result (message_events m') =
     (case result m' of None \<Rightarrow> [] | Some r \<Rightarrow> if r \<noteq> [] then [Result r] else [])" for m'
    by (simp add: filter_result_message_events result_events_def)
  have b: "filter is_result (fst (streamAgent query load_env process_env p)) =
           concat (map (\<lambda>m. case result m of
                               None \<Rightarrow> []
                             | Some r \<Rightarrow> if r \<noteq> [] then [Result r] else [])
                       (handed s))"
    unfolding fst_streamAgent assms
    by (simp add: filter_concat_map filter_result_final_events e)
  show ?thesis
    using a b e [of m] Result_in_message_events [of t m] by blast
qed

theorem result_event_iff_nonempty_witness:
  "Result ''Done cooking'' \<in> set (fst (streamAgent
      (\<lambda>r. closing [\<lparr>mtype = ''result'', message = None, result = Some []\<rparr>,
                     \<lparr>mtype = ''result'', message = None, result = Some ''Done cooking''\<rparr>]
         :: unit message_stream)
      Map.empty Map.empty ''find a soup'')) \<and>
   filter is_result (fst (streamAgent
      (\<lambda>r. closing [\<lparr>mtype = ''result'', message = None, result = Some []\<rparr>,
                     \<lparr>mtype = ''result'', message = None, result = Some ''Done cooking''\<rparr>]
         :: unit message_stream)
      Map.empty Map.empty ''find a soup'')) = [Result ''Done cooking'']"
proof -
  let ?s = "closing [\<lparr>mtype = ''result'', message = None, result = Some []\<rparr>,
                     \<lparr>mtype = ''result'', message = None, result = Some ''Done cooking''\<rparr>]
         :: unit message_stream"
  have q: "(\<lambda>r. ?s) \<lparr>prompt = ''find a soup'', options = getOptions Map.empty Map.empty True\<rparr> = ?s"
    by simp
  show ?thesis
    using result_event_iff_nonempty [OF q, of "''Done cooking''"]
    by (simp add: handed_closing)
qed


text \<open>
  C10. For an assistant message with content blocks, anywhere in the stream, the generator
  yields the text events of all its blocks in list order and then the tool events of all
  its blocks in list order: among the events of this message no tool event stands before a
  text event, whatever the order of the blocks.
\<close>

theorem texts_before_tools:
  assumes "query \<lparr>prompt = p, options = getOptions load_env process_env True\<rparr> = s"
    and "handed s = ms1 @ m # ms2"
    and "assistant_content m = Some bs"
  shows "fst (streamAgent query load_env process_env p) =
           concat (map message_events ms1) @
           concat (map text_check bs) @ concat (map tool_check bs) @
           usage_events m @ result_events m @
           concat (map message_events ms2) @ final_events s \<and>
         (\<forall>i j. i < j \<and> j < length (message_events m) \<and>
            is_text (fst (streamAgent query load_env process_env p) !
                       (length (concat (map message_events ms1)) + j))
            \<longrightarrow> \<not> is_tool (fst (streamAgent query load_env process_env p) !
                       (length (concat (map message_events ms1)) + i))) \<and>
         filter is_text (message_events m) = concat (map text_check bs) \<and>
         filter is_tool (message_events m) = concat (map tool_check bs)"
proof -
  let ?out = "fst (streamAgent query load_env process_env p)"
  let ?pre = "concat (map message_events ms1)"
  let ?post = "concat (map message_events ms2) @ final_events s"
  have a: "filter is_text (message_events m) = concat (map text_check bs)"
    using assms(3) by (simp add: filter_text_message_events text_events_Some)
  have b: "filter is_tool (message_events m) = concat (map tool_check bs)"
    using assms(3) by (simp add: filter_tool_message_events tool_events_Some)
  have two: "message_events m =
           concat (map text_check bs) @ concat (map tool_check bs) @
           usage_events m @ result_events m"
    using assms(3) by (simp add: message_events_def text_events_Some tool_events_Some)
  have run: "?out = ?pre @ message_events m @ ?post"
    using assms(1,2) by (simp add: fst_streamAgent)
  have str: "?out = ?pre @
           concat (map text_check bs) @ concat (map tool_check bs) @
           usage_events m @ result_events m @
           concat (map message_events ms2) @ final_events s"
    unfolding run two by simp
  have seg: "?out ! (length ?pre + k) = message_events m ! k" if "k < length (message_events m)" for k
    unfolding run using that by (rule segment_nth)
  have c: "\<not> is_tool (?out ! (length ?pre + i))"
    if "i < j" and "j < length (message_events m)" and "is_text (?out ! (length ?pre + j))" for i j
  proof -
    have "i < length (message_events m)" using that(1,2) by simp
    then have i: "?out ! (length ?pre + i) = message_events m ! i" by (rule seg)
    have j: "?out ! (length ?pre + j) = message_events m ! j" using that(2) by (rule seg)
    have "\<not> is_tool (message_events m ! i)"
      using that(1,2) that(3) [unfolded j] by (rule text_before_tool_index)
    then show ?thesis unfolding i .
  qed
  show ?thesis
    using str a b c by blast
qed

theorem texts_before_tools_witness:
  "fst (streamAgent
     (\<lambda>r. closing [assistant_message
        [tool_use_block ''click'', text_block ''Hello'', tool_use_block ''fill'',
         text_block ''Bye'']] :: unit message_stream)
     Map.empty Map.empty ''find a soup'') =
   [Text ''Hello'', Text ''Bye'', Tool (Some ''click''), Tool (Some ''fill''), Done]"
proof -
  let ?bs = "[tool_use_block ''click'', text_block ''Hello'', tool_use_block ''fill'',
         text_block ''Bye'']"
  let ?s = "closing [assistant_message ?bs] :: unit message_stream"
  have q: "(\<lambda>r. ?s) \<lparr>prompt = ''find a soup'', options = getOptions Map.empty Map.empty True\<rparr> = ?s"
    by simp
  have h: "handed ?s = [] @ assistant_message ?bs # []"
    by (simp add: handed_closing)
  have ur: "usage_events (assistant_message ?bs) = []" "result_events (assistant_message ?bs) = []"
    by (simp_all add: usage_events_def result_events_def assistant_message_def)
  have ct: "concat (map text_check ?bs) = [Text ''Hello'', Text ''Bye'']"
    by (simp add: text_block_def tool_use_block_def text_check_def)
  have cl: "concat (map tool_check ?bs) = [Tool (Some ''click''), Tool (Some ''fill'')]"
    by (simp add: text_block_def tool_use_block_def tool_check_def)
  have "fst (streamAgent (\<lambda>r. ?s) Map.empty Map.empty ''find a soup'') =
           concat (map message_events []) @
           concat (map text_check ?bs) @ concat (map tool_check ?bs) @
           usage_events (assistant_message ?bs) @ result_events (assistant_message ?bs) @
           concat (map message_events []) @ final_events ?s"
    using texts_before_tools [OF q h assistant_content_assistant_message] by blast
  then show ?thesis
    unfolding ur ct cl final_events_closing by simp
qed


end
